theory Spec2Isabelle
  imports Complex_Main "HOL-Library.AList"
begin

section \<open>The matcher: \<open>Dejavu.align_matches\<close>\<close>

text \<open>
  The embedding follows \<^verbatim>\<open>src/dejavu/__init__.py\<close>, read as Python 3: \<open>/\<close> on two
  integers is true division, and a \<open>dict\<close> is iterated in the order in which its keys were
  first inserted.

  Floating-point values are modelled by exact rationals. The two places where the source
  computes with floats are the ratio \<open>count / largest_count\<close> compared with \<open>0.1\<close>, and
  the seconds of an offset, rounded by \<open>round(x, 5)\<close>.
\<close>

subsection \<open>Data\<close>

text \<open>
  A song record of the store is a Python \<open>dict\<close> that is read with \<open>.get(key, None)\<close>
  and tested for truth by \<open>if song:\<close>. It is an association list here: \<open>.get\<close> is
  \<^const>\<open>map_of\<close>, and the empty dictionary is the one that is false.
  The type \<open>'v\<close> is the type of the values the store keeps under a key.
\<close>

type_synonym 'v song = "(string \<times> 'v) list"

definition SONG_NAME :: string where
  "SONG_NAME = ''song_name''"

definition SONG_DURATION :: string where
  "SONG_DURATION = ''song_duration''"

definition CREATIVE_ID :: string where
  "CREATIVE_ID = ''creative_id''"

text \<open>
  Modelled from the spec: \<open>Database.FIELD_FILE_SHA1\<close>, a constant of the module
  \<open>dejavu.database\<close>; the result object of the spec names the key \<open>file_sha1\<close>.
\<close>

definition FIELD_FILE_SHA1 :: string where
  "FIELD_FILE_SHA1 = ''file_sha1''"

text \<open>
  Modelled from the spec: the constants \<open>DEFAULT_FS\<close>, \<open>DEFAULT_WINDOW_SIZE\<close> and
  \<open>DEFAULT_OVERLAP_RATIO\<close> of the module \<open>dejavu.fingerprint\<close>, with the defaults of
  the spec's parameter table (44100 Hz, 4096 samples, 0.5).
\<close>

definition DEFAULT_FS :: rat where
  "DEFAULT_FS = 44100"

definition DEFAULT_WINDOW_SIZE :: rat where
  "DEFAULT_WINDOW_SIZE = 4096"

definition DEFAULT_OVERLAP_RATIO :: rat where
  "DEFAULT_OVERLAP_RATIO = 1 / 2"

text \<open>The value \<open>largest_matches[sid]\<close>: the dictionary \<open>{'count': ..., 'diff': ...}\<close>.\<close>

record entry =
  count :: nat
  diff :: int

text \<open>
  The local variables of the first loop of \<open>align_matches\<close>. \<open>diff_counter\<close> is a
  dictionary of dictionaries that is only read by key; \<open>largest_matches\<close> is iterated by
  the second loop, so it keeps the insertion order of its keys.
\<close>

record align_state =
  diff_counter :: "int \<rightharpoonup> (int \<rightharpoonup> nat)"
  largest :: int
  largest_count :: nat
  song_id :: int
  largest_matches :: "(int \<times> entry) list"

text \<open>
  A dictionary of \<open>fallback_matches\<close>, with the keys \<open>song_id\<close>, \<open>song_name\<close>,
  \<open>song_duration\<close>, \<open>creative_id\<close>, \<open>confidence\<close>, \<open>offset_seconds\<close> and
  \<open>file_sha1\<close>. A value read from the store with \<open>.get\<close> is \<open>None\<close> when the key is
  missing.
\<close>

record 'v fallback =
  fb_song_id :: int
  fb_song_name :: "'v option"
  fb_song_duration :: "'v option"
  fb_creative_id :: "'v option"
  fb_confidence :: nat
  fb_offset_seconds :: rat
  fb_file_sha1 :: "'v option"

text \<open>The dictionary that \<open>align_matches\<close> returns.\<close>

record 'v match =
  m_song_id :: int
  m_song_name :: "'v option"
  m_song_duration :: "'v option"
  m_creative_id :: "'v option"
  m_confidence :: nat
  m_offset :: int
  m_offset_seconds :: rat
  m_file_sha1 :: "'v option"
  fallback_matches :: "'v fallback list"

text \<open>The exceptions that the modelled code can raise.\<close>

datatype error =
  AttributeError
  | ZeroDivisionError
  | KeyError
  | AlreadyFingerprinted string
  | SoundFileError
  | DecodeError

subsection \<open>Rounding\<close>

text \<open>
  \<open>round(x, n)\<close> of Python 3 rounds to \<open>n\<close> decimal places, a tie going to the even
  neighbour.
\<close>

definition round_half_even :: "rat \<Rightarrow> int" where
  "round_half_even x =
     (let f = \<lfloor>x\<rfloor>; r = x - of_int f
      in if r < 1 / 2 then f
         else if 1 / 2 < r then f + 1
         else if even f then f else f + 1)"

definition py_round :: "rat \<Rightarrow> nat \<Rightarrow> rat" where
  "py_round x n = of_int (round_half_even (x * 10 ^ n)) / 10 ^ n"

text \<open>Lines 169 to 171 and 190 to 192: the seconds of an offset.\<close>

definition nseconds :: "int \<Rightarrow> rat" where
  "nseconds d =
     py_round (of_int d / DEFAULT_FS * DEFAULT_WINDOW_SIZE * DEFAULT_OVERLAP_RATIO) 5"

subsection \<open>The voting loop (lines 135 to 156)\<close>

definition init_state :: align_state where
  "init_state =
     \<lparr>diff_counter = Map.empty, largest = 0, largest_count = 0, song_id = - 1,
      largest_matches = []\<rparr>"

text \<open>
  Lines 143 to 147: the two missing keys are created and the cell is incremented. The
  result is the new \<open>diff_counter\<close> and the new value of \<open>diff_counter[diff][sid]\<close>.
\<close>

definition tally_vote ::
  "(int \<rightharpoonup> (int \<rightharpoonup> nat)) \<Rightarrow> int \<Rightarrow> int \<Rightarrow> (int \<rightharpoonup> (int \<rightharpoonup> nat)) \<times> nat" where
  "tally_vote dc sid d =
     (let inner = (case dc d of None \<Rightarrow> Map.empty | Some m \<Rightarrow> m);
          n = (case inner sid of None \<Rightarrow> 0 | Some k \<Rightarrow> k)
      in (dc(d \<mapsto> inner(sid \<mapsto> n + 1)), n + 1))"

text \<open>One iteration of \<open>for tup in matches\<close>.\<close>

definition vote_step :: "align_state \<Rightarrow> int \<times> int \<Rightarrow> align_state" where
  "vote_step s tup =
     (case tup of (sid, d) \<Rightarrow>
        (case tally_vote (diff_counter s) sid d of (dc, c) \<Rightarrow>
           if largest_count s < c
           then s\<lparr>diff_counter := dc, largest := d, largest_count := c, song_id := sid,
                  largest_matches :=
                    AList.update sid \<lparr>count = c, diff = d\<rparr> (largest_matches s)\<rparr>
           else s\<lparr>diff_counter := dc\<rparr>))"

definition vote_loop :: "(int \<times> int) list \<Rightarrow> align_state" where
  "vote_loop matches = foldl vote_step init_state matches"

subsection \<open>The fallback loop (lines 184 to 204)\<close>

text \<open>
  Line 188: \<open>distance >= 0.1 and song_id != key\<close>, where \<open>distance\<close> is the true
  quotient of two counts. The quotient of two integers is rounded correctly, and so is the
  literal \<open>0.1\<close>, so the comparison of the floats agrees with the comparison of the exact
  values for all counts below \<open>2 ^ 53\<close>.
\<close>

definition accepted :: "int \<Rightarrow> nat \<Rightarrow> int \<Rightarrow> entry \<Rightarrow> bool" where
  "accepted sid lc key e \<longleftrightarrow> (1 / 10 :: rat) \<le> of_nat (count e) / of_nat lc \<and> sid \<noteq> key"

text \<open>
  The loop \<open>for key in largest_matches\<close>, with \<open>accepted_fallbacks\<close> as accumulator.
  The division raises for a zero divisor. \<open>song_fallback.get\<close> raises when the store
  returned \<open>None\<close>; a record that is an empty dictionary gives \<open>None\<close> for every field.
\<close>

fun fallback_loop ::
  "(int \<Rightarrow> 'v song option) \<Rightarrow> int \<Rightarrow> nat \<Rightarrow> (int \<times> entry) list \<Rightarrow> 'v fallback list
     \<Rightarrow> error + 'v fallback list" where
  "fallback_loop get_song_by_id sid lc [] acc = Inr acc"
| "fallback_loop get_song_by_id sid lc ((key, e) # rest) acc =
     (if lc = 0 then Inl ZeroDivisionError
      else if accepted sid lc key e
      then (case get_song_by_id key of
              None \<Rightarrow> Inl AttributeError
            | Some song_fallback \<Rightarrow>
                fallback_loop get_song_by_id sid lc rest
                  (acc @
                   [\<lparr>fb_song_id = key,
                     fb_song_name = map_of song_fallback SONG_NAME,
                     fb_song_duration = map_of song_fallback SONG_DURATION,
                     fb_creative_id = map_of song_fallback CREATIVE_ID,
                     fb_confidence = count e,
                     fb_offset_seconds = nseconds (diff e),
                     fb_file_sha1 = map_of song_fallback FIELD_FILE_SHA1\<rparr>]))
      else fallback_loop get_song_by_id sid lc rest acc)"

subsection \<open>\<open>align_matches\<close> (lines 127 to 208)\<close>

text \<open>
  The first argument is \<open>self.db.get_song_by_id\<close>. The result is \<open>Inl\<close> of the
  exception raised, \<open>Inr None\<close> for the \<open>None\<close> of line 166, and \<open>Inr (Some r)\<close> for the
  dictionary of line 208.
\<close>

definition align_matches ::
  "(int \<Rightarrow> 'v song option) \<Rightarrow> (int \<times> int) list \<Rightarrow> error + 'v match option" where
  "align_matches get_song_by_id matches =
     (let s = vote_loop matches
      in case get_song_by_id (song_id s) of
           None \<Rightarrow> Inr None
         | Some song \<Rightarrow>
             if song = [] then Inr None
             else
               (case fallback_loop get_song_by_id (song_id s) (largest_count s)
                       (largest_matches s) [] of
                  Inl e \<Rightarrow> Inl e
                | Inr accepted_fallbacks \<Rightarrow>
                    Inr (Some
                      \<lparr>m_song_id = song_id s,
                       m_song_name = map_of song SONG_NAME,
                       m_song_duration = map_of song SONG_DURATION,
                       m_creative_id = map_of song CREATIVE_ID,
                       m_confidence = largest_count s,
                       m_offset = largest s,
                       m_offset_seconds = nseconds (largest s),
                       m_file_sha1 = map_of song FIELD_FILE_SHA1,
                       fallback_matches = accepted_fallbacks\<rparr>)))"

text \<open>
  The cell \<open>diff_counter[diff][sid]\<close> of the histogram, read as 0 where a key is missing.
  The theorems state the contents of \<open>diff_counter\<close> with it.
\<close>

definition cell :: "(int \<rightharpoonup> (int \<rightharpoonup> nat)) \<Rightarrow> int \<Rightarrow> int \<Rightarrow> nat" where
  "cell dc sid d =
     (case dc d of None \<Rightarrow> 0 | Some m \<Rightarrow> (case m sid of None \<Rightarrow> 0 | Some n \<Rightarrow> n))"



section \<open>Ingestion: \<open>_fingerprint_worker\<close>, \<open>fingerprint_file\<close>, \<open>fingerprint_directory\<close>\<close>

subsection \<open>The collaborators\<close>

text \<open>
  \<open>limit\<close> is \<open>None\<close> or a number of seconds. The third case is the value that
  \<open>_fingerprint_worker\<close> makes of a path of two characters (see \<open>unpack_args\<close>).
\<close>

datatype pylimit = NoLimit | Limit int | LimitStr string

text \<open>
  The modules \<open>dejavu.decoder\<close> and \<open>dejavu.fingerprint\<close>, \<open>os.path\<close> and
  \<open>soundfile\<close> are parameters of the model. \<open>read\<close> is \<open>decoder.read\<close>, and \<open>None\<close>
  stands for its raising; \<open>basename_noext\<close> is the first component of
  \<open>os.path.splitext(os.path.basename(filename))\<close>; \<open>soundfile_duration\<close> is lines 105 and
  106, the text of the duration of the file, and \<open>None\<close> where \<open>sf.SoundFile\<close> raises.
  \<open>'ch\<close> is the type of a channel, \<open>'h\<close> of a hash with its offset, and \<open>'v\<close> of
  the values of the store, among them the content hash of a file.
\<close>

record ('ch, 'h, 'v) decoder_env =
  find_files :: "string \<Rightarrow> string list \<Rightarrow> (string \<times> string) list"
  unique_hash :: "string \<Rightarrow> 'v"
  path_to_songname :: "string \<Rightarrow> string"
  basename_noext :: "string \<Rightarrow> string"
  read :: "string \<Rightarrow> pylimit \<Rightarrow> ('ch list \<times> nat \<times> 'v) option"
  fingerprint :: "'ch \<Rightarrow> nat \<Rightarrow> 'h list"
  soundfile_duration :: "string \<Rightarrow> string option"

text \<open>
  The store, \<open>self.db\<close>, is a state of type \<open>'db\<close> and the operations of the class
  \<open>Database\<close> that ingestion calls. \<open>insert_song\<close> takes the name, the content hash, and
  the duration and the creative id, which the directory path does not pass.
\<close>

record ('db, 'h, 'v) store =
  get_songs :: "'db \<Rightarrow> 'v song list"
  insert_song :: "'db \<Rightarrow> string \<Rightarrow> 'v \<Rightarrow> string option \<Rightarrow> 'v option \<Rightarrow> int \<times> 'db"
  insert_hashes :: "'db \<Rightarrow> int \<Rightarrow> 'h set \<Rightarrow> 'db"
  set_song_fingerprinted :: "'db \<Rightarrow> int \<Rightarrow> 'db"

text \<open>
  The object \<open>self\<close>. \<open>stdout\<close> is not a field of the class: it is the lines that
  \<open>print\<close> has written so far.
\<close>

record ('db, 'v) dejavu =
  db :: 'db
  limit :: pylimit
  songs :: "'v song list"
  songhashes_set :: "'v set"
  stdout :: "string list"

subsection \<open>\<open>get_fingerprinted_songs\<close> (lines 40 to 46)\<close>

text \<open>
  The loop of lines 44 to 46. \<open>song[Database.FIELD_FILE_SHA1]\<close> raises \<open>KeyError\<close> for
  a record without the key, and the set then holds the hashes added before.
\<close>

fun add_song_hashes :: "'v song list \<Rightarrow> 'v set \<Rightarrow> error option \<times> 'v set" where
  "add_song_hashes [] hs = (None, hs)"
| "add_song_hashes (song # rest) hs =
     (case map_of song FIELD_FILE_SHA1 of
        None \<Rightarrow> (Some KeyError, hs)
      | Some song_hash \<Rightarrow> add_song_hashes rest (insert song_hash hs))"

text \<open>
  A method that changes \<open>self\<close> returns the exception it raised, if any, and the object
  as it is then.
\<close>

definition get_fingerprinted_songs ::
  "('db, 'h, 'v) store \<Rightarrow> ('db, 'v) dejavu \<Rightarrow> error option \<times> ('db, 'v) dejavu" where
  "get_fingerprinted_songs st self =
     (let sgs = get_songs st (db self)
      in case add_song_hashes sgs {} of
           (err, hs) \<Rightarrow> (err, self\<lparr>songs := sgs, songhashes_set := hs\<rparr>))"

subsection \<open>\<open>_fingerprint_worker\<close> (lines 215 to 239)\<close>

text \<open>
  The first argument is the pair that \<open>Pool.imap\<close> sends or, from \<open>fingerprint_file\<close>,
  a path. Lines 218 to 221 unpack it; a string unpacks too when it has two characters.
\<close>

datatype worker_arg = Packed string pylimit | Plain string

definition unpack_args :: "worker_arg \<Rightarrow> pylimit \<Rightarrow> string \<times> pylimit" where
  "unpack_args a limit_arg =
     (case a of
        Packed f l \<Rightarrow> (f, l)
      | Plain f \<Rightarrow> if length f = 2 then ([f ! 0], LimitStr [f ! 1]) else (f, limit_arg))"

text \<open>\<open>song_name or songname\<close>: \<open>None\<close> and the empty string are false.\<close>

definition name_or :: "string option \<Rightarrow> string \<Rightarrow> string" where
  "name_or song_name songname =
     (case song_name of None \<Rightarrow> songname | Some n \<Rightarrow> if n = [] then songname else n)"

definition fingerprint_worker ::
  "('ch, 'h, 'v) decoder_env \<Rightarrow> worker_arg \<Rightarrow> pylimit \<Rightarrow> string option
     \<Rightarrow> error + (string \<times> 'h set \<times> 'v)" where
  "fingerprint_worker env arg limit_arg song_name =
     (case unpack_args arg limit_arg of (filename, limit') \<Rightarrow>
        (case read env filename limit' of
           None \<Rightarrow> Inl DecodeError
         | Some (channels, Fs, file_hash) \<Rightarrow>
             Inr (name_or song_name (basename_noext env filename),
                  foldl (\<lambda>result channel. result \<union> set (fingerprint env channel Fs)) {}
                    channels,
                  file_hash)))"

subsection \<open>\<open>fingerprint_file\<close> (lines 99 to 121)\<close>

definition fingerprint_file ::
  "('ch, 'h, 'v) decoder_env \<Rightarrow> ('db, 'h, 'v) store \<Rightarrow> string \<Rightarrow> string option \<Rightarrow> 'v option
     \<Rightarrow> ('db, 'v) dejavu \<Rightarrow> error option \<times> ('db, 'v) dejavu" where
  "fingerprint_file env st filepath song_name creative_id self =
     (let songname = path_to_songname env filepath;
          song_hash = unique_hash env filepath;
          song_name1 = name_or song_name songname
      in case soundfile_duration env filepath of
           None \<Rightarrow> (Some SoundFileError, self)
         | Some duration \<Rightarrow>
             if song_hash \<in> songhashes_set self
             then (Some (AlreadyFingerprinted song_name1), self)
             else
               (case fingerprint_worker env (Plain filepath) (limit self) (Some song_name1) of
                  Inl e \<Rightarrow> (Some e, self)
                | Inr (song_name2, hashes, file_hash) \<Rightarrow>
                    (case insert_song st (db self) song_name2 file_hash (Some duration)
                            creative_id of
                       (sid, db1) \<Rightarrow>
                         let db2 = insert_hashes st db1 sid hashes;
                             db3 = set_song_fingerprinted st db2 sid
                         in get_fingerprinted_songs st (self\<lparr>db := db3\<rparr>))))"

subsection \<open>\<open>fingerprint_directory\<close> (lines 48 to 97)\<close>

text \<open>
  Lines 59 to 67: one iteration over \<open>decoder.find_files\<close>. The state is
  \<open>filenames_to_fingerprint\<close> and the lines printed.
\<close>

definition scan_step ::
  "('ch, 'h, 'v) decoder_env \<Rightarrow> 'v set \<Rightarrow> string list \<times> string list \<Rightarrow> string \<times> string
     \<Rightarrow> string list \<times> string list" where
  "scan_step env hs acc file =
     (case acc of (filenames_to_fingerprint, out) \<Rightarrow>
        (case file of (filename, ext) \<Rightarrow>
           if unique_hash env filename \<in> hs
           then (filenames_to_fingerprint,
                 out @ [filename @ '' already fingerprinted, continuing...''])
           else (filenames_to_fingerprint @ [filename], out)))"

text \<open>
  Lines 78 to 94, over the results in the order in which the pool delivers them. A worker
  that raised is an \<open>Inl\<close>: the driver prints and goes on. An exception of the
  \<open>else\<close> branch is not caught and ends the loop.
\<close>

fun consume ::
  "('db, 'h, 'v) store \<Rightarrow> (error + (string \<times> 'h set \<times> 'v)) list \<Rightarrow> ('db, 'v) dejavu
     \<Rightarrow> error option \<times> ('db, 'v) dejavu" where
  "consume st [] self = (None, self)"
| "consume st (Inl e # rest) self =
     consume st rest (self\<lparr>stdout := stdout self @ [''Failed fingerprinting'']\<rparr>)"
| "consume st (Inr (song_name, hashes, file_hash) # rest) self =
     (case insert_song st (db self) song_name file_hash None None of
        (sid, db1) \<Rightarrow>
          let db2 = insert_hashes st db1 sid hashes;
              db3 = set_song_fingerprinted st db2 sid
          in (case get_fingerprinted_songs st (self\<lparr>db := db3\<rparr>) of
                (Some e, self') \<Rightarrow> (Some e, self')
              | (None, self') \<Rightarrow> consume st rest self'))"

text \<open>
  \<open>imap_unordered\<close> delivers the results in the order in which the workers finish.
  \<open>completion_order\<close> is that order, as a rearrangement of the list of results; the
  theorems hold for every one. The number of processes has no part in the result.
\<close>

definition fingerprint_directory ::
  "('ch, 'h, 'v) decoder_env \<Rightarrow> ('db, 'h, 'v) store
     \<Rightarrow> ((error + (string \<times> 'h set \<times> 'v)) list \<Rightarrow> (error + (string \<times> 'h set \<times> 'v)) list)
     \<Rightarrow> string \<Rightarrow> string list \<Rightarrow> ('db, 'v) dejavu \<Rightarrow> error option \<times> ('db, 'v) dejavu" where
  "fingerprint_directory env st completion_order path extensions self =
     (case foldl (scan_step env (songhashes_set self)) ([], stdout self)
             (find_files env path extensions) of
        (filenames_to_fingerprint, out) \<Rightarrow>
          let worker_input =
                zip filenames_to_fingerprint
                  (replicate (length filenames_to_fingerprint) (limit self));
              results =
                completion_order
                  (map (\<lambda>(f, l). fingerprint_worker env (Packed f l) NoLimit None)
                     worker_input)
          in consume st results (self\<lparr>stdout := out\<rparr>))"

subsection \<open>The calls that reach the store\<close>

text \<open>
  To state the order of the calls, a store is run together with the list of the calls
  that changed it. \<open>traced st\<close> does what \<open>st\<close> does and appends each call to the list.
\<close>

datatype ('h, 'v) db_call =
  InsertSong string 'v "string option" "'v option"
  | InsertHashes int "'h set"
  | SetSongFingerprinted int

definition traced :: "('db, 'h, 'v) store \<Rightarrow> ('db \<times> ('h, 'v) db_call list, 'h, 'v) store" where
  "traced st =
     \<lparr>get_songs = (\<lambda>(d, calls). get_songs st d),
      insert_song = (\<lambda>(d, calls) n fh du c.
        case insert_song st d n fh du c of
          (sid, d') \<Rightarrow> (sid, (d', calls @ [InsertSong n fh du c]))),
      insert_hashes = (\<lambda>(d, calls) sid hs.
        (insert_hashes st d sid hs, calls @ [InsertHashes sid hs])),
      set_song_fingerprinted = (\<lambda>(d, calls) sid.
        (set_song_fingerprinted st d sid, calls @ [SetSongFingerprinted sid]))\<rparr>"

text \<open>
  The calls of one ingestion as \<open>traced\<close> records them: \<open>insert_song\<close> with its
  arguments, \<open>insert_hashes\<close> with the song id and the set of hashes, and
  \<open>set_song_fingerprinted\<close> with the song id.
\<close>

definition ingest_calls ::
  "string option \<Rightarrow> 'v option \<Rightarrow> int \<times> string \<times> 'h set \<times> 'v \<Rightarrow> ('h, 'v) db_call list" where
  "ingest_calls du c x =
     (case x of (sid, n, H, fh) \<Rightarrow>
        [InsertSong n fh du c, InsertHashes sid H, SetSongFingerprinted sid])"

section \<open>Properties of the voting loop\<close>

lemma vote_loop_Nil: "vote_loop [] = init_state"
  by (simp add: vote_loop_def)

lemma vote_loop_snoc: "vote_loop (vs @ [v]) = vote_step (vote_loop vs) v"
  by (simp add: vote_loop_def)

lemma tally_vote_snd: "snd (tally_vote dc sid d) = cell dc sid d + 1"
  by (simp add: tally_vote_def cell_def Let_def split: option.splits)

lemma tally_vote_cell:
  "cell (fst (tally_vote dc sid d)) sid' d' =
     (if sid' = sid \<and> d' = d then cell dc sid d + 1 else cell dc sid' d')"
  by (simp add: tally_vote_def cell_def Let_def split: option.splits)

lemma vote_step_unfold:
  "vote_step s (sid, d) =
     (if largest_count s < cell (diff_counter s) sid d + 1
      then s\<lparr>diff_counter := fst (tally_vote (diff_counter s) sid d), largest := d,
             largest_count := cell (diff_counter s) sid d + 1, song_id := sid,
             largest_matches :=
               AList.update sid \<lparr>count = cell (diff_counter s) sid d + 1, diff = d\<rparr>
                 (largest_matches s)\<rparr>
      else s\<lparr>diff_counter := fst (tally_vote (diff_counter s) sid d)\<rparr>)"
proof -
  obtain dc c where t: "tally_vote (diff_counter s) sid d = (dc, c)"
    by (cases "tally_vote (diff_counter s) sid d")
  from tally_vote_snd [of "diff_counter s" sid d] t
  have "c = cell (diff_counter s) sid d + 1" by simp
  with t show ?thesis by (simp add: vote_step_def)
qed

lemma cell_vote_loop: "cell (diff_counter (vote_loop vs)) sid d = count_list vs (sid, d)"
proof (induction vs rule: rev_induct)
  case Nil
  show ?case by (simp add: vote_loop_Nil init_state_def cell_def)
next
  case (snoc v vs)
  obtain a b where v: "v = (a, b)" by (cases v)
  show ?case
    using snoc.IH
    by (auto simp add: vote_loop_snoc v vote_step_unfold tally_vote_cell)
qed

text \<open>The loop in terms of the votes seen so far.\<close>

lemma vote_loop_step:
  "vote_loop (vs @ [(sid, d)]) =
     (let s = vote_loop vs; c = count_list vs (sid, d) + 1
      in if largest_count s < c
         then s\<lparr>diff_counter := fst (tally_vote (diff_counter s) sid d), largest := d,
                largest_count := c, song_id := sid,
                largest_matches := AList.update sid \<lparr>count = c, diff = d\<rparr> (largest_matches s)\<rparr>
         else s\<lparr>diff_counter := fst (tally_vote (diff_counter s) sid d)\<rparr>)"
  by (simp add: vote_loop_snoc vote_step_unfold cell_vote_loop Let_def)

lemma largest_count_ub: "count_list vs c \<le> largest_count (vote_loop vs)"
proof (induction vs rule: rev_induct)
  case Nil
  show ?case by simp
next
  case (snoc v vs)
  obtain a b where v: "v = (a, b)" by (cases v)
  show ?case
    using snoc.IH
    by (auto simp add: v vote_loop_step Let_def)
qed

lemma largest_count_pos: "vs \<noteq> [] \<Longrightarrow> 0 < largest_count (vote_loop vs)"
proof -
  assume "vs \<noteq> []"
  then have "0 < count_list vs (hd vs)"
    by (cases vs) simp_all
  with largest_count_ub [of vs "hd vs"] show ?thesis by simp
qed

lemma first_attained:
  assumes "vs \<noteq> []"
  shows "\<exists>pre post. vs = pre @ (song_id (vote_loop vs), largest (vote_loop vs)) # post \<and>
           count_list pre (song_id (vote_loop vs), largest (vote_loop vs)) + 1
             = largest_count (vote_loop vs) \<and>
           (\<forall>c. count_list pre c < largest_count (vote_loop vs))"
  using assms
proof (induction vs rule: rev_induct)
  case Nil
  then show ?case by simp
next
  case (snoc v vs)
  obtain a b where v: "v = (a, b)" by (cases v)
  show ?case
  proof (cases "largest_count (vote_loop vs) < count_list vs (a, b) + 1")
    case True
    have lt: "\<forall>c. count_list vs c < count_list vs (a, b) + 1"
      using True largest_count_ub [of vs] by (meson le_less_trans)
    have st: "song_id (vote_loop (vs @ [v])) = a" "largest (vote_loop (vs @ [v])) = b"
      "largest_count (vote_loop (vs @ [v])) = count_list vs (a, b) + 1"
      using True by (simp_all add: v vote_loop_step Let_def)
    show ?thesis
      unfolding st using lt by (intro exI [of _ vs] exI [of _ "[]"]) (simp add: v)
  next
    case False
    then have ne: "vs \<noteq> []"
      by (auto simp add: vote_loop_Nil init_state_def)
    have st: "song_id (vote_loop (vs @ [v])) = song_id (vote_loop vs)"
      "largest (vote_loop (vs @ [v])) = largest (vote_loop vs)"
      "largest_count (vote_loop (vs @ [v])) = largest_count (vote_loop vs)"
      using False by (simp_all add: v vote_loop_step Let_def)
    from snoc.IH [OF ne] obtain pre post where
      p: "vs = pre @ (song_id (vote_loop vs), largest (vote_loop vs)) # post"
         "count_list pre (song_id (vote_loop vs), largest (vote_loop vs)) + 1
             = largest_count (vote_loop vs)"
         "\<forall>c. count_list pre c < largest_count (vote_loop vs)"
      by blast
    have "vs @ [v] = pre @ (song_id (vote_loop vs), largest (vote_loop vs)) # (post @ [v])"
      using p(1) by simp
    with p(2,3) show ?thesis
      unfolding st by (intro exI [of _ pre] exI [of _ "post @ [v]"]) simp
  qed
qed

text \<open>What the table \<open>largest_matches\<close> holds.\<close>

lemma set_update_subset:
  "(k', v') \<in> set (AList.update k v al) \<Longrightarrow> (k', v') = (k, v) \<or> (k', v') \<in> set al"
  by (induction al) (auto split: if_splits)

lemma largest_matches_Nil: "largest_matches (vote_loop []) = []"
  by (simp add: vote_loop_Nil init_state_def)

lemma largest_matches_entry:
  "(key, e) \<in> set (largest_matches (vote_loop vs)) \<Longrightarrow>
     0 < count e \<and> count e \<le> count_list vs (key, diff e)"
proof (induction vs rule: rev_induct)
  case Nil
  then show ?case by (simp add: largest_matches_Nil)
next
  case (snoc v vs)
  obtain a b where v: "v = (a, b)" by (cases v)
  show ?case
  proof (cases "largest_count (vote_loop vs) < count_list vs (a, b) + 1")
    case True
    then have "largest_matches (vote_loop (vs @ [v])) =
        AList.update a \<lparr>count = count_list vs (a, b) + 1, diff = b\<rparr> (largest_matches (vote_loop vs))"
      by (simp add: v vote_loop_step Let_def)
    with snoc.prems have "(key, e) = (a, \<lparr>count = count_list vs (a, b) + 1, diff = b\<rparr>) \<or>
        (key, e) \<in> set (largest_matches (vote_loop vs))"
      by (auto dest: set_update_subset)
    then show ?thesis
      using snoc.IH by (auto simp add: v)
  next
    case False
    then have "largest_matches (vote_loop (vs @ [v])) = largest_matches (vote_loop vs)"
      by (simp add: v vote_loop_step Let_def)
    with snoc.prems snoc.IH show ?thesis
      by (auto simp add: v)
  qed
qed


lemma winner_entry:
  "vs \<noteq> [] \<Longrightarrow>
     map_of (largest_matches (vote_loop vs)) (song_id (vote_loop vs)) =
       Some \<lparr>count = largest_count (vote_loop vs), diff = largest (vote_loop vs)\<rparr>"
proof (induction vs rule: rev_induct)
  case Nil
  then show ?case by simp
next
  case (snoc v vs)
  obtain a b where v: "v = (a, b)" by (cases v)
  show ?case
  proof (cases "largest_count (vote_loop vs) < count_list vs (a, b) + 1")
    case True
    then show ?thesis
      by (simp add: v vote_loop_step Let_def update_conv')
  next
    case False
    then have "vs \<noteq> []"
      by (auto simp add: vote_loop_Nil init_state_def)
    with snoc.IH False show ?thesis
      by (simp add: v vote_loop_step Let_def)
  qed
qed

section \<open>Properties of the fallback loop\<close>

lemma fallback_loop_raises:
  "0 < lc \<Longrightarrow>
     (fallback_loop get_song_by_id sid lc es acc = Inl err) \<longleftrightarrow>
       (err = AttributeError \<and> (\<exists>(key, e) \<in> set es. accepted sid lc key e \<and> get_song_by_id key = None))"
proof (induction es arbitrary: acc)
  case Nil
  show ?case by simp
next
  case (Cons p es)
  obtain key e where p: "p = (key, e)" by (cases p)
  show ?case
    using Cons.prems Cons.IH [OF Cons.prems]
    by (cases "get_song_by_id key") (auto simp add: p)
qed



lemma align_matches_Some:
  assumes "align_matches get_song_by_id votes = Inr (Some r)"
  shows "m_song_id r = song_id (vote_loop votes)"
    and "m_offset r = largest (vote_loop votes)"
    and "m_confidence r = largest_count (vote_loop votes)"
    and "m_offset_seconds r = nseconds (largest (vote_loop votes))"
    and "fallback_loop get_song_by_id (song_id (vote_loop votes)) (largest_count (vote_loop votes))
           (largest_matches (vote_loop votes)) [] = Inr (fallback_matches r)"
  using assms
  by (auto simp add: align_matches_def Let_def split: option.splits if_splits sum.splits)

section \<open>The claims on \<open>align_matches\<close>\<close>

text \<open>
  Claim C3. The primary result is the cell of the histogram with the largest count, and
  its count is the confidence: no cell has more votes than \<open>confidence\<close>, and the cell
  \<open>(song_id, offset)\<close> of the result has exactly that many. Among cells that tie, the
  result is the one that reached the count first in the order of the votes: the list of
  votes splits at a vote for the winning cell with which the cell reaches the count, and
  before which every cell is below it. The histogram is \<^const>\<open>count_list\<close> on the votes.
\<close>

theorem align_matches_winner:
  assumes "align_matches get_song_by_id votes = Inr (Some r)"
  shows "(\<forall>c. count_list votes c \<le> m_confidence r) \<and>
         (votes \<noteq> [] \<longrightarrow>
            count_list votes (m_song_id r, m_offset r) = m_confidence r \<and>
            (\<exists>pre post. votes = pre @ (m_song_id r, m_offset r) # post \<and>
               count_list (pre @ [(m_song_id r, m_offset r)]) (m_song_id r, m_offset r)
                 = m_confidence r \<and>
               (\<forall>c. count_list pre c < m_confidence r)))"
proof -
  note r = align_matches_Some(1-3) [OF assms]
  have ub: "\<forall>c. count_list votes c \<le> m_confidence r"
    by (simp add: r largest_count_ub)
  have "count_list votes (m_song_id r, m_offset r) = m_confidence r \<and>
        (\<exists>pre post. votes = pre @ (m_song_id r, m_offset r) # post \<and>
           count_list (pre @ [(m_song_id r, m_offset r)]) (m_song_id r, m_offset r)
             = m_confidence r \<and>
           (\<forall>c. count_list pre c < m_confidence r))" if ne: "votes \<noteq> []"
  proof -
    from first_attained [OF ne] obtain pre post where
      p: "votes = pre @ (m_song_id r, m_offset r) # post"
         "count_list pre (m_song_id r, m_offset r) + 1 = m_confidence r"
         "\<forall>c. count_list pre c < m_confidence r"
      unfolding r by blast
    have "m_confidence r \<le> count_list votes (m_song_id r, m_offset r)"
      using p(2) by (subst p(1)) simp
    with ub have "count_list votes (m_song_id r, m_offset r) = m_confidence r"
      by (simp add: le_antisym)
    with p show ?thesis
      by (intro conjI exI [of _ pre] exI [of _ post]) simp_all
  qed
  with ub show ?thesis by blast
qed

theorem align_matches_winner_witness:
  "align_matches (map_of [(1::int, [(''song_name'', ''A'')]), (2, [(''song_name'', ''B'')])])
     [(1::int, 0::int), (2, 5), (2, 5), (1, 0)] =
     Inr (Some \<lparr>m_song_id = 2, m_song_name = Some ''B'', m_song_duration = None,
       m_creative_id = None, m_confidence = 2, m_offset = 5, m_offset_seconds = 1161 / 5000,
       m_file_sha1 = None,
       fallback_matches = [\<lparr>fb_song_id = 1, fb_song_name = Some ''A'',
         fb_song_duration = None, fb_creative_id = None, fb_confidence = 1,
         fb_offset_seconds = 0, fb_file_sha1 = None\<rparr>]\<rparr>) \<and>
   (\<forall>c. count_list [(1::int, 0::int), (2, 5), (2, 5), (1, 0)] c \<le> 2) \<and>
   count_list [(1::int, 0::int), (2, 5), (2, 5), (1, 0)] (2, 5) = 2 \<and>
   (\<exists>pre post. [(1::int, 0::int), (2, 5), (2, 5), (1, 0)] = pre @ (2::int, 5::int) # post \<and>
      count_list (pre @ [(2, 5)]) (2, 5) = 2 \<and> (\<forall>c. count_list pre c < 2))"
proof -
  have h: "align_matches (map_of [(1::int, [(''song_name'', ''A'')]), (2, [(''song_name'', ''B'')])])
     [(1::int, 0::int), (2, 5), (2, 5), (1, 0)] =
     Inr (Some \<lparr>m_song_id = 2, m_song_name = Some ''B'', m_song_duration = None,
       m_creative_id = None, m_confidence = 2, m_offset = 5, m_offset_seconds = 1161 / 5000,
       m_file_sha1 = None,
       fallback_matches = [\<lparr>fb_song_id = 1, fb_song_name = Some ''A'',
         fb_song_duration = None, fb_creative_id = None, fb_confidence = 1,
         fb_offset_seconds = 0, fb_file_sha1 = None\<rparr>]\<rparr>)"
    by code_simp
  from align_matches_winner [OF h] h show ?thesis
    by simp
qed

text \<open>
  Claim C1. The claim asks that the entry recorded for a song is the song's own best
  cell. The code writes the entry only when the cell sets a new overall maximum. On the
  votes below, song 1 is recorded with count 1 at offset 0, while its cell at offset 7 has
  2 votes: the two votes for \<open>(1, 7)\<close> come when the overall maximum is 2 already.
\<close>

theorem largest_matches_not_own_best:
  "map_of (largest_matches (vote_loop [(1::int, 0::int), (2, 5), (2, 5), (1, 7), (1, 7)])) 1 =
     Some \<lparr>count = 1, diff = 0\<rparr> \<and>
   count_list [(1::int, 0::int), (2, 5), (2, 5), (1, 7), (1, 7)] (1, 7) = 2 \<and>
   count_list [(1::int, 0::int), (2, 5), (2, 5), (1, 7), (1, 7)] (1, 0) = 1"
  by code_simp

text \<open>
  Claim C2. The claim asks that every other song whose best count is at least 10% of the
  winning count is a fallback. On the votes below song 2 has one vote, as many as the
  winner, and the list of fallbacks is empty: song 2 never set a new overall maximum, so
  it is not in \<open>largest_matches\<close>.
\<close>

theorem fallback_matches_miss_song:
  "align_matches (map_of [(1::int, [(''song_name'', ''A'')]), (2, [(''song_name'', ''B'')])])
     [(1::int, 0::int), (2, 0)] =
     Inr (Some \<lparr>m_song_id = 1, m_song_name = Some ''A'', m_song_duration = None,
       m_creative_id = None, m_confidence = 1, m_offset = 0, m_offset_seconds = 0,
       m_file_sha1 = None, fallback_matches = []\<rparr>) \<and>
   count_list [(1::int, 0::int), (2, 0)] (2, 0) = 1"
  by code_simp

text \<open>
  Claim C4. For the empty list of votes the loop leaves \<open>song_id = -1\<close>, and the result
  is what the store gives for that id. A store with a record under \<open>-1\<close> makes the call
  return a record, so the claim does not hold for every store.
\<close>

theorem align_matches_empty_counterexample:
  "align_matches (map_of [(- 1::int, [(''song_name'', ''A'')])]) [] =
     Inr (Some \<lparr>m_song_id = - 1, m_song_name = Some ''A'', m_song_duration = None,
       m_creative_id = None, m_confidence = 0, m_offset = 0, m_offset_seconds = 0,
       m_file_sha1 = None, fallback_matches = []\<rparr>)"
  by code_simp

text \<open>
  Claim C4, amended. For the empty list of votes \<open>align_matches\<close> does not raise, and it
  returns \<open>None\<close> exactly when the store has no record, or an empty one, under the
  song id \<open>-1\<close>.
\<close>

theorem align_matches_empty:
  "(\<exists>r. align_matches get_song_by_id [] = Inr r) \<and>
   (align_matches get_song_by_id [] = Inr None \<longleftrightarrow>
      get_song_by_id (- 1) = None \<or> get_song_by_id (- 1) = Some [])"
  by (cases "get_song_by_id (- 1)")
    (simp_all add: align_matches_def vote_loop_Nil init_state_def Let_def)

theorem align_matches_empty_witness:
  "align_matches (map_of [(1::int, [(''song_name'', ''A'')])]) [] = Inr None"
  using align_matches_empty [of "map_of [(1::int, [(''song_name'', ''A'')])]"]
  by simp

text \<open>
  Claim C5. When the store has no record for the winning song id, \<open>align_matches\<close>
  returns \<open>None\<close>, whatever the votes are.
\<close>

theorem align_matches_missing_winner:
  assumes "get_song_by_id (song_id (vote_loop votes)) = None"
  shows "align_matches get_song_by_id votes = Inr None"
  using assms by (simp add: align_matches_def)

theorem align_matches_missing_winner_witness:
  "map_of [(1::int, [(''song_name'', ''A'')])] (song_id (vote_loop [(1::int, 0::int), (2, 5), (2, 5)])) = None \<and>
   align_matches (map_of [(1::int, [(''song_name'', ''A'')])]) [(1::int, 0::int), (2, 5), (2, 5)] = Inr None"
proof -
  have h: "map_of [(1::int, [(''song_name'', ''A'')])] (song_id (vote_loop [(1::int, 0::int), (2, 5), (2, 5)])) = None"
    by code_simp
  from h align_matches_missing_winner
      [where get_song_by_id = "map_of [(1::int, [(''song_name'', ''A'')])]"
         and votes = "[(1::int, 0::int), (2, 5), (2, 5)]", OF h]
  show ?thesis
    by (rule conjI)
qed



text \<open>
  Claim C10. Let the store have a record, not empty, for the winner. If the store has no
  record for some song that the fallback loop accepts, the call raises
  \<open>AttributeError\<close>; otherwise it returns a result. So the lookup of a fallback is not
  guarded: a missing fallback neither gives \<open>None\<close> nor is left out.
\<close>

theorem fallback_lookup_unguarded:
  assumes "get_song_by_id (song_id (vote_loop votes)) = Some song" and "song \<noteq> []"
  shows "if \<exists>(key, e) \<in> set (largest_matches (vote_loop votes)).
              accepted (song_id (vote_loop votes)) (largest_count (vote_loop votes)) key e \<and>
              get_song_by_id key = None
         then align_matches get_song_by_id votes = Inl AttributeError
         else \<exists>r. align_matches get_song_by_id votes = Inr (Some r)"
proof (cases "votes = []")
  case True
  with assms show ?thesis
    by (simp add: align_matches_def largest_matches_Nil Let_def)
next
  case False
  then have pos: "0 < largest_count (vote_loop votes)"
    by (rule largest_count_pos)
  show ?thesis
  proof (cases "fallback_loop get_song_by_id (song_id (vote_loop votes))
      (largest_count (vote_loop votes)) (largest_matches (vote_loop votes)) []")
    case (Inl err)
    with fallback_loop_raises [OF pos, of get_song_by_id "song_id (vote_loop votes)"
        "largest_matches (vote_loop votes)" "[]" err] assms
    show ?thesis
      by (simp add: align_matches_def Let_def)
  next
    case (Inr fbs)
    have "\<not> (\<exists>(key, e) \<in> set (largest_matches (vote_loop votes)).
              accepted (song_id (vote_loop votes)) (largest_count (vote_loop votes)) key e \<and>
              get_song_by_id key = None)"
      using fallback_loop_raises [OF pos, of get_song_by_id "song_id (vote_loop votes)"
        "largest_matches (vote_loop votes)" "[]" AttributeError] Inr
      by simp
    with Inr assms show ?thesis
      by (simp add: align_matches_def Let_def)
  qed
qed

theorem fallback_lookup_unguarded_witness:
  "map_of [(2::int, [(''song_name'', ''B'')])] (song_id (vote_loop [(1::int, 0::int), (2, 5), (2, 5)])) =
     Some [(''song_name'', ''B'')] \<and>
   (1, \<lparr>count = 1, diff = 0\<rparr>) \<in> set (largest_matches (vote_loop [(1::int, 0::int), (2, 5), (2, 5)])) \<and>
   accepted 2 2 1 \<lparr>count = 1, diff = 0\<rparr> \<and>
   align_matches (map_of [(2::int, [(''song_name'', ''B'')])]) [(1::int, 0::int), (2, 5), (2, 5)] =
     Inl AttributeError"
proof -
  have h1: "map_of [(2::int, [(''song_name'', ''B'')])] (song_id (vote_loop [(1::int, 0::int), (2, 5), (2, 5)])) =
     Some [(''song_name'', ''B'')]"
    by code_simp
  have h2: "[(''song_name'', ''B'')] \<noteq> []"
    by simp
  have h3: "(1, \<lparr>count = 1, diff = 0\<rparr>) \<in> set (largest_matches (vote_loop [(1::int, 0::int), (2, 5), (2, 5)]))"
    by code_simp
  have h4: "accepted 2 2 1 \<lparr>count = 1, diff = 0\<rparr>"
    by code_simp
  have h5: "song_id (vote_loop [(1::int, 0::int), (2, 5), (2, 5)]) = 2"
    "largest_count (vote_loop [(1::int, 0::int), (2, 5), (2, 5)]) = 2"
    by code_simp+
  have h6: "map_of [(2::int, [(''song_name'', ''B'')])] 1 = None"
    by simp
  have "\<exists>(key, e) \<in> set (largest_matches (vote_loop [(1::int, 0::int), (2, 5), (2, 5)])).
          accepted (song_id (vote_loop [(1::int, 0::int), (2, 5), (2, 5)]))
            (largest_count (vote_loop [(1::int, 0::int), (2, 5), (2, 5)])) key e \<and>
          map_of [(2::int, [(''song_name'', ''B'')])] key = None"
    using h3 h4 h6 unfolding h5 by blast
  with fallback_lookup_unguarded
      [where get_song_by_id = "map_of [(2::int, [(''song_name'', ''B'')])]"
         and votes = "[(1::int, 0::int), (2, 5), (2, 5)]", OF h1 h2] h1 h3 h4
  show ?thesis
    by simp
qed

section \<open>Properties of the worker\<close>

lemma union_channels_replicate:
  "foldl (\<lambda>result channel. result \<union> set (fp channel Fs)) acc (replicate n ch) =
     (if n = 0 then acc else acc \<union> set (fp ch Fs))"
  by (induction n arbitrary: acc) auto

lemma all_equal_replicate: "\<forall>c \<in> set channels. c = ch \<Longrightarrow> channels = replicate (length channels) ch"
  by (induction channels) auto

lemma union_channels_equal:
  assumes "channels \<noteq> []" and "\<forall>c \<in> set channels. c = ch"
  shows "foldl (\<lambda>result channel. result \<union> set (fp channel Fs)) {} channels = set (fp ch Fs)"
proof -
  from assms(2) have "channels = replicate (length channels) ch"
    by (rule all_equal_replicate)
  then have "foldl (\<lambda>result channel. result \<union> set (fp channel Fs)) {} channels =
      foldl (\<lambda>result channel. result \<union> set (fp channel Fs)) {} (replicate (length channels) ch)"
    by simp
  also have "\<dots> = set (fp ch Fs)"
    using assms(1) by (simp only: union_channels_replicate) simp
  finally show ?thesis .
qed

text \<open>
  Claim C9. Let a file decode to one or more channels that are all the same channel
  \<open>ch\<close>, and let a second file decode to the single channel \<open>ch\<close> at the same sample
  rate. Then \<open>_fingerprint_worker\<close> returns the same set of hashes for both, the set of
  \<open>fingerprint(ch, Fs)\<close>: the union over the channels keeps one copy of a hash.
\<close>

theorem channel_union_idempotent:
  assumes "unpack_args arg limit_arg = (f, l)"
    and "read env f l = Some (channels, Fs, fh)"
    and "channels \<noteq> []" and "\<forall>c \<in> set channels. c = ch"
    and "unpack_args arg' limit_arg' = (f', l')"
    and "read env f' l' = Some ([ch], Fs, fh')"
  shows "\<exists>n n' H. fingerprint_worker env arg limit_arg song_name = Inr (n, H, fh) \<and>
           fingerprint_worker env arg' limit_arg' song_name' = Inr (n', H, fh') \<and>
           H = set (fingerprint env ch Fs)"
  using assms(1,2,5,6) union_channels_equal [OF assms(3,4), of "fingerprint env" Fs]
  by (simp add: fingerprint_worker_def)

theorem channel_union_idempotent_witness:
  "let env = \<lparr>find_files = (\<lambda>p x. []), unique_hash = (\<lambda>f. ''h''),
       path_to_songname = (\<lambda>f. f), basename_noext = (\<lambda>f. f),
       read = (\<lambda>f l. if f = ''stereo.wav''
                 then Some ([[1, 2, 3], [1, 2, 3]], 44100, ''hs'')
                 else Some ([[1, 2, 3 :: nat]], 44100, ''hm'')),
       fingerprint = (\<lambda>channel Fs. map (\<lambda>x. x + Fs) channel),
       soundfile_duration = (\<lambda>f. Some ''1.0'')\<rparr>
   in unpack_args (Packed ''stereo.wav'' NoLimit) NoLimit = (''stereo.wav'', NoLimit) \<and>
      read env ''stereo.wav'' NoLimit = Some ([[1, 2, 3], [1, 2, 3]], 44100, ''hs'') \<and>
      [[1, 2, 3], [1, 2, 3 :: nat]] \<noteq> [] \<and>
      (\<forall>c \<in> set [[1, 2, 3], [1, 2, 3 :: nat]]. c = [1, 2, 3]) \<and>
      unpack_args (Packed ''mono.wav'' NoLimit) NoLimit = (''mono.wav'', NoLimit) \<and>
      read env ''mono.wav'' NoLimit = Some ([[1, 2, 3]], 44100, ''hm'') \<and>
      (\<exists>n n' H.
         fingerprint_worker env (Packed ''stereo.wav'' NoLimit) NoLimit None = Inr (n, H, ''hs'') \<and>
         fingerprint_worker env (Packed ''mono.wav'' NoLimit) NoLimit None = Inr (n', H, ''hm'') \<and>
         H = set (fingerprint env [1, 2, 3] 44100))"
proof -
  let ?env = "\<lparr>find_files = (\<lambda>p x. []), unique_hash = (\<lambda>f. ''h''),
       path_to_songname = (\<lambda>f. f), basename_noext = (\<lambda>f. f),
       read = (\<lambda>f l. if f = ''stereo.wav''
                 then Some ([[1, 2, 3], [1, 2, 3]], 44100, ''hs'')
                 else Some ([[1, 2, 3 :: nat]], 44100, ''hm'')),
       fingerprint = (\<lambda>channel Fs. map (\<lambda>x. x + Fs) channel),
       soundfile_duration = (\<lambda>f. Some ''1.0'')\<rparr>"
  have h1: "unpack_args (Packed ''stereo.wav'' NoLimit) NoLimit = (''stereo.wav'', NoLimit)"
    by (simp add: unpack_args_def)
  have h2: "read ?env ''stereo.wav'' NoLimit = Some ([[1, 2, 3], [1, 2, 3]], 44100, ''hs'')"
    by simp
  have h3: "[[1, 2, 3], [1, 2, 3 :: nat]] \<noteq> []"
    by simp
  have h4: "\<forall>c \<in> set [[1, 2, 3], [1, 2, 3 :: nat]]. c = [1, 2, 3]"
    by simp
  have h5: "unpack_args (Packed ''mono.wav'' NoLimit) NoLimit = (''mono.wav'', NoLimit)"
    by (simp add: unpack_args_def)
  have h6: "read ?env ''mono.wav'' NoLimit = Some ([[1, 2, 3]], 44100, ''hm'')"
    by simp
  from channel_union_idempotent [OF h1 h2 h3 h4 h5 h6, of None None] h1 h2 h3 h4 h5 h6
  show ?thesis
    unfolding Let_def by (intro conjI)
qed

section \<open>Properties of ingestion\<close>

lemma get_fingerprinted_songs_keeps:
  "db (snd (get_fingerprinted_songs st self)) = db self"
  "stdout (snd (get_fingerprinted_songs st self)) = stdout self"
  "limit (snd (get_fingerprinted_songs st self)) = limit self"
  by (simp_all add: get_fingerprinted_songs_def Let_def split: prod.splits)

lemma get_fingerprinted_songs_stdout:
  "get_fingerprinted_songs st (self\<lparr>stdout := out\<rparr>) =
     (fst (get_fingerprinted_songs st self), (snd (get_fingerprinted_songs st self))\<lparr>stdout := out\<rparr>)"
  by (simp add: get_fingerprinted_songs_def Let_def split: prod.splits)

lemma scan_files:
  "foldl (scan_step env hs) (todo, out) files =
     (todo @ map fst (filter (\<lambda>(f, x). unique_hash env f \<notin> hs) files),
      out @ map (\<lambda>(f, x). f @ '' already fingerprinted, continuing...'')
              (filter (\<lambda>(f, x). unique_hash env f \<in> hs) files))"
  by (induction files arbitrary: todo out) (auto simp add: scan_step_def)

lemma consume_stdout_mono: "set (stdout self) \<subseteq> set (stdout (snd (consume st rs self)))"
proof (induction st rs self rule: consume.induct)
  case (1 st self)
  show ?case by simp
next
  case (2 st e rest self)
  then show ?case by auto
next
  case (3 st song_name hashes file_hash rest self)
  obtain sid db1 where i: "insert_song st (db self) song_name file_hash None None = (sid, db1)"
    by (cases "insert_song st (db self) song_name file_hash None None")
  let ?s = "self\<lparr>db := set_song_fingerprinted st (insert_hashes st db1 sid hashes) sid\<rparr>"
  obtain r self' where g: "get_fingerprinted_songs st ?s = (r, self')"
    by (cases "get_fingerprinted_songs st ?s")
  from get_fingerprinted_songs_keeps(2) [of st ?s] g have o: "stdout self' = stdout self"
    by simp
  show ?case
  proof (cases r)
    case None
    with "3.IH" [OF i [symmetric] refl refl g [symmetric]] i g o show ?thesis
      by (simp add: Let_def)
  next
    case (Some e)
    with i g o show ?thesis
      by (simp add: Let_def)
  qed
qed

lemma get_fingerprinted_songs_cong:
  assumes "db s1 = db s2"
  shows "fst (get_fingerprinted_songs st s1) = fst (get_fingerprinted_songs st s2)"
    and "db (snd (get_fingerprinted_songs st s1)) = db (snd (get_fingerprinted_songs st s2))"
    and "songs (snd (get_fingerprinted_songs st s1)) = songs (snd (get_fingerprinted_songs st s2))"
    and "songhashes_set (snd (get_fingerprinted_songs st s1)) =
           songhashes_set (snd (get_fingerprinted_songs st s2))"
  using assms by (simp_all add: get_fingerprinted_songs_def Let_def split: prod.splits)

text \<open>The loop over the results does not read what was printed.\<close>

lemma consume_cong:
  assumes "db s1 = db s2" and "songs s1 = songs s2" and "songhashes_set s1 = songhashes_set s2"
  shows "fst (consume st rs s1) = fst (consume st rs s2) \<and>
         db (snd (consume st rs s1)) = db (snd (consume st rs s2)) \<and>
         songs (snd (consume st rs s1)) = songs (snd (consume st rs s2)) \<and>
         songhashes_set (snd (consume st rs s1)) = songhashes_set (snd (consume st rs s2))"
  using assms
proof (induction rs arbitrary: s1 s2)
  case Nil
  then show ?case by simp
next
  case (Cons r rs)
  show ?case
  proof (cases r)
    case (Inl e)
    with Cons.IH [where ?s1.0 = "s1\<lparr>stdout := stdout s1 @ [''Failed fingerprinting'']\<rparr>"
        and ?s2.0 = "s2\<lparr>stdout := stdout s2 @ [''Failed fingerprinting'']\<rparr>"] Cons.prems
    show ?thesis
      by simp
  next
    case (Inr t)
    obtain song_name hashes file_hash where t: "t = (song_name, hashes, file_hash)"
      by (cases t)
    obtain sid db1 where i: "insert_song st (db s1) song_name file_hash None None = (sid, db1)"
      by (cases "insert_song st (db s1) song_name file_hash None None")
    let ?X = "set_song_fingerprinted st (insert_hashes st db1 sid hashes) sid"
    obtain e1 s1' where g1: "get_fingerprinted_songs st (s1\<lparr>db := ?X\<rparr>) = (e1, s1')"
      by (cases "get_fingerprinted_songs st (s1\<lparr>db := ?X\<rparr>)")
    obtain e2 s2' where g2: "get_fingerprinted_songs st (s2\<lparr>db := ?X\<rparr>) = (e2, s2')"
      by (cases "get_fingerprinted_songs st (s2\<lparr>db := ?X\<rparr>)")
    from get_fingerprinted_songs_cong [of "s1\<lparr>db := ?X\<rparr>" "s2\<lparr>db := ?X\<rparr>" st] g1 g2
    have same: "e2 = e1" "db s1' = db s2'" "songs s1' = songs s2'"
      "songhashes_set s1' = songhashes_set s2'"
      by simp_all
    have c1: "consume st (r # rs) s1 =
        (case e1 of Some x \<Rightarrow> (Some x, s1') | None \<Rightarrow> consume st rs s1')"
      using i g1 by (simp add: Inr t Let_def split: option.splits)
    have c2: "consume st (r # rs) s2 =
        (case e1 of Some x \<Rightarrow> (Some x, s2') | None \<Rightarrow> consume st rs s2')"
      using i g2 Cons.prems(1) same(1) by (simp add: Inr t Let_def split: option.splits)
    show ?thesis
      using Cons.IH [OF same(2-4)] same by (cases e1) (simp_all add: c1 c2)
  qed
qed

lemma zip_replicate: "zip xs (replicate (length xs) a) = map (\<lambda>x. (x, a)) xs"
  by (induction xs) simp_all

lemma fingerprint_directory_unfold:
  "fingerprint_directory env st co path extensions self =
     consume st
       (co (map (\<lambda>f. fingerprint_worker env (Packed f (limit self)) NoLimit None)
              (map fst (filter (\<lambda>(f, x). unique_hash env f \<notin> songhashes_set self)
                          (find_files env path extensions)))))
       (self\<lparr>stdout := stdout self @
          map (\<lambda>(f, x). f @ '' already fingerprinted, continuing...'')
            (filter (\<lambda>(f, x). unique_hash env f \<in> songhashes_set self)
               (find_files env path extensions))\<rparr>)"
  by (simp add: fingerprint_directory_def scan_files zip_replicate Let_def comp_def)

lemma fingerprint_worker_find_files:
  "fingerprint_worker (env\<lparr>find_files := g\<rparr>) arg l n = fingerprint_worker env arg l n"
  by (simp add: fingerprint_worker_def split: prod.splits option.splits)

text \<open>
  Claim C7. Let the content hash of a file be in \<open>songhashes_set\<close>. Then
  \<open>fingerprint_file\<close> raises and leaves the object and the store as they were, and the
  exception is the one of line 110 when the sound file opens. \<open>fingerprint_directory\<close>
  prints the notice for the file when the file is found, and ends with the same store,
  the same songs and the same set of hashes as the run that never finds the file.
\<close>

theorem duplicate_ingest:
  assumes "unique_hash env filepath \<in> songhashes_set self"
  shows "(\<exists>e. fingerprint_file env st filepath song_name creative_id self = (Some e, self)) \<and>
    (\<forall>duration. soundfile_duration env filepath = Some duration \<longrightarrow>
       fingerprint_file env st filepath song_name creative_id self =
         (Some (AlreadyFingerprinted (name_or song_name (path_to_songname env filepath))), self)) \<and>
    (\<forall>ext. (filepath, ext) \<in> set (find_files env path extensions) \<longrightarrow>
       filepath @ '' already fingerprinted, continuing...''
         \<in> set (stdout (snd (fingerprint_directory env st co path extensions self)))) \<and>
    (\<forall>env'. env' = env\<lparr>find_files :=
                 \<lambda>p x. filter (\<lambda>(f, ext). f \<noteq> filepath) (find_files env p x)\<rparr> \<longrightarrow>
       fst (fingerprint_directory env st co path extensions self) =
         fst (fingerprint_directory env' st co path extensions self) \<and>
       db (snd (fingerprint_directory env st co path extensions self)) =
         db (snd (fingerprint_directory env' st co path extensions self)) \<and>
       songs (snd (fingerprint_directory env st co path extensions self)) =
         songs (snd (fingerprint_directory env' st co path extensions self)) \<and>
       songhashes_set (snd (fingerprint_directory env st co path extensions self)) =
         songhashes_set (snd (fingerprint_directory env' st co path extensions self)))"
proof -
  have single: "\<exists>e. fingerprint_file env st filepath song_name creative_id self = (Some e, self)"
    using assms
    by (cases "soundfile_duration env filepath") (simp_all add: fingerprint_file_def Let_def)
  have raised: "\<forall>duration. soundfile_duration env filepath = Some duration \<longrightarrow>
       fingerprint_file env st filepath song_name creative_id self =
         (Some (AlreadyFingerprinted (name_or song_name (path_to_songname env filepath))), self)"
    using assms by (simp add: fingerprint_file_def Let_def)
  have notice: "\<forall>ext. (filepath, ext) \<in> set (find_files env path extensions) \<longrightarrow>
       filepath @ '' already fingerprinted, continuing...''
         \<in> set (stdout (snd (fingerprint_directory env st co path extensions self)))"
  proof (intro allI impI)
    fix ext
    assume "(filepath, ext) \<in> set (find_files env path extensions)"
    with assms have "filepath @ '' already fingerprinted, continuing...'' \<in>
        set (stdout self @ map (\<lambda>(f, x). f @ '' already fingerprinted, continuing...'')
              (filter (\<lambda>(f, x). unique_hash env f \<in> songhashes_set self)
                 (find_files env path extensions)))"
      by force
    then show "filepath @ '' already fingerprinted, continuing...''
        \<in> set (stdout (snd (fingerprint_directory env st co path extensions self)))"
      unfolding fingerprint_directory_unfold
      using consume_stdout_mono by fastforce
  qed
  have skipped: "\<forall>env'. env' = env\<lparr>find_files :=
                 \<lambda>p x. filter (\<lambda>(f, ext). f \<noteq> filepath) (find_files env p x)\<rparr> \<longrightarrow>
       fst (fingerprint_directory env st co path extensions self) =
         fst (fingerprint_directory env' st co path extensions self) \<and>
       db (snd (fingerprint_directory env st co path extensions self)) =
         db (snd (fingerprint_directory env' st co path extensions self)) \<and>
       songs (snd (fingerprint_directory env st co path extensions self)) =
         songs (snd (fingerprint_directory env' st co path extensions self)) \<and>
       songhashes_set (snd (fingerprint_directory env st co path extensions self)) =
         songhashes_set (snd (fingerprint_directory env' st co path extensions self))"
  proof (intro allI impI)
    fix env'
    assume e: "env' = env\<lparr>find_files :=
        \<lambda>p x. filter (\<lambda>(f, ext). f \<noteq> filepath) (find_files env p x)\<rparr>"
    have ff: "find_files env' path extensions =
        filter (\<lambda>(f, ext). f \<noteq> filepath) (find_files env path extensions)"
      by (simp add: e)
    have uh: "unique_hash env' = unique_hash env"
      by (simp add: e)
    have fw: "fingerprint_worker env' = fingerprint_worker env"
      by (intro ext) (simp add: e fingerprint_worker_find_files)
    have todo: "filter (\<lambda>(f, x). unique_hash env f \<notin> songhashes_set self)
        (filter (\<lambda>(f, ext). f \<noteq> filepath) (find_files env path extensions)) =
        filter (\<lambda>(f, x). unique_hash env f \<notin> songhashes_set self)
          (find_files env path extensions)"
      using assms by (auto intro!: filter_cong)
    show "fst (fingerprint_directory env st co path extensions self) =
           fst (fingerprint_directory env' st co path extensions self) \<and>
         db (snd (fingerprint_directory env st co path extensions self)) =
           db (snd (fingerprint_directory env' st co path extensions self)) \<and>
         songs (snd (fingerprint_directory env st co path extensions self)) =
           songs (snd (fingerprint_directory env' st co path extensions self)) \<and>
         songhashes_set (snd (fingerprint_directory env st co path extensions self)) =
           songhashes_set (snd (fingerprint_directory env' st co path extensions self))"
      unfolding fingerprint_directory_unfold ff uh fw todo
      by (rule consume_cong) simp_all
  qed
  show ?thesis
    by (rule conjI single raised notice skipped)+
qed

theorem duplicate_ingest_witness:
  "let env = \<lparr>find_files = (\<lambda>p x. [(''a.wav'', ''wav''), (''b.wav'', ''wav'')]),
       unique_hash = (\<lambda>f. if f = ''a.wav'' then ''ha'' else ''hb''),
       path_to_songname = (\<lambda>f. f), basename_noext = (\<lambda>f. f),
       read = (\<lambda>f l. Some ([[1, 2, 3 :: nat]], 44100, ''hb'')),
       fingerprint = (\<lambda>channel Fs. map (\<lambda>x. x + Fs) channel),
       soundfile_duration = (\<lambda>f. Some ''1.0'')\<rparr>;
       st = \<lparr>get_songs = (\<lambda>d. d),
       insert_song = (\<lambda>d n fh du c. (int (length d), d @ [[(''file_sha1'', fh)]])),
       insert_hashes = (\<lambda>d sid H. d),
       set_song_fingerprinted = (\<lambda>d sid. d)\<rparr>;
       self = \<lparr>db = [[(''file_sha1'', ''ha'')]], limit = NoLimit,
       songs = [[(''file_sha1'', ''ha'')]], songhashes_set = {''ha''}, stdout = []\<rparr>
   in unique_hash env ''a.wav'' \<in> songhashes_set self \<and>
      fingerprint_file env st ''a.wav'' None None self =
        (Some (AlreadyFingerprinted ''a.wav''), self) \<and>
      ''a.wav already fingerprinted, continuing...''
        \<in> set (stdout (snd (fingerprint_directory env st rev ''music'' [''wav''] self)))"
proof -
  let ?env = "\<lparr>find_files = (\<lambda>p x. [(''a.wav'', ''wav''), (''b.wav'', ''wav'')]),
       unique_hash = (\<lambda>f. if f = ''a.wav'' then ''ha'' else ''hb''),
       path_to_songname = (\<lambda>f. f), basename_noext = (\<lambda>f. f),
       read = (\<lambda>f l. Some ([[1, 2, 3 :: nat]], 44100, ''hb'')),
       fingerprint = (\<lambda>channel Fs. map (\<lambda>x. x + Fs) channel),
       soundfile_duration = (\<lambda>f. Some ''1.0'')\<rparr>"
  let ?st = "\<lparr>get_songs = (\<lambda>d. d),
       insert_song = (\<lambda>d n fh du c. (int (length d), d @ [[(''file_sha1'', fh)]])),
       insert_hashes = (\<lambda>d sid H. d),
       set_song_fingerprinted = (\<lambda>d sid. d)\<rparr>"
  let ?self = "\<lparr>db = [[(''file_sha1'', ''ha'')]], limit = NoLimit,
       songs = [[(''file_sha1'', ''ha'')]], songhashes_set = {''ha''}, stdout = []\<rparr>"
  have h: "unique_hash ?env ''a.wav'' \<in> songhashes_set ?self"
    by simp
  have d: "soundfile_duration ?env ''a.wav'' = Some ''1.0''"
    by simp
  have f: "(''a.wav'', ''wav'') \<in> set (find_files ?env ''music'' [''wav''])"
    by simp
  note t = duplicate_ingest [OF h, where st = ?st and song_name = None and creative_id = None
      and path = "''music''" and extensions = "[''wav'']" and co = rev]
  from t [THEN conjunct2, THEN conjunct1, rule_format, OF d]
  have 1: "fingerprint_file ?env ?st ''a.wav'' None None ?self =
      (Some (AlreadyFingerprinted ''a.wav''), ?self)"
    by (simp add: name_or_def)
  from t [THEN conjunct2, THEN conjunct2, THEN conjunct1, rule_format, OF f]
  have 2: "''a.wav already fingerprinted, continuing...''
        \<in> set (stdout (snd (fingerprint_directory ?env ?st rev ''music'' [''wav''] ?self)))"
    by simp
  from h 1 2 show ?thesis
    unfolding Let_def by (intro conjI)
qed

lemma traced_simps:
  "get_songs (traced st) (d, calls) = get_songs st d"
  "insert_song (traced st) (d, calls) n fh du c =
     (fst (insert_song st d n fh du c),
      (snd (insert_song st d n fh du c), calls @ [InsertSong n fh du c]))"
  "insert_hashes (traced st) (d, calls) sid H =
     (insert_hashes st d sid H, calls @ [InsertHashes sid H])"
  "set_song_fingerprinted (traced st) (d, calls) sid =
     (set_song_fingerprinted st d sid, calls @ [SetSongFingerprinted sid])"
  by (simp_all add: traced_def split: prod.splits)

lemma traced_ingest:
  assumes "insert_song (traced st) dbt n fh du c = (sid, db1)"
  shows "snd (set_song_fingerprinted (traced st) (insert_hashes (traced st) db1 sid H) sid) =
           snd dbt @ ingest_calls du c (sid, n, H, fh)"
proof -
  obtain d calls where dbt: "dbt = (d, calls)" by (cases dbt)
  from assms show ?thesis
    by (auto simp add: dbt traced_simps ingest_calls_def)
qed

lemma consume_traced:
  "\<exists>ingested.
     snd (db (snd (consume (traced st) rs self))) =
       snd (db self) @ concat (map (ingest_calls None None) ingested) \<and>
     (\<forall>(sid, n, H, fh) \<in> set ingested. Inr (n, H, fh) \<in> set rs) \<and>
     (fst (consume (traced st) rs self) = None \<longrightarrow>
        (\<forall>n H fh. Inr (n, H, fh) \<in> set rs \<longrightarrow> (\<exists>sid. (sid, n, H, fh) \<in> set ingested)))"
proof (induction rs arbitrary: self)
  case Nil
  show ?case
    by (rule exI [of _ "[]"]) simp
next
  case (Cons r rs)
  show ?case
  proof (cases r)
    case (Inl e)
    let ?s = "self\<lparr>stdout := stdout self @ [''Failed fingerprinting'']\<rparr>"
    from Cons.IH [of ?s] obtain ingested where
      ing: "snd (db (snd (consume (traced st) rs ?s))) =
         snd (db ?s) @ concat (map (ingest_calls None None) ingested) \<and>
        (\<forall>(sid, n, H, fh) \<in> set ingested. Inr (n, H, fh) \<in> set rs) \<and>
        (fst (consume (traced st) rs ?s) = None \<longrightarrow>
          (\<forall>n H fh. Inr (n, H, fh) \<in> set rs \<longrightarrow> (\<exists>sid. (sid, n, H, fh) \<in> set ingested)))"
      ..
    have c: "consume (traced st) (r # rs) self = consume (traced st) rs ?s"
      by (simp add: Inl)
    have d: "db ?s = db self"
      by simp
    show ?thesis
      unfolding c using ing unfolding d
      by (intro exI [of _ ingested]) (simp add: Inl case_prod_beta)
  next
    case (Inr t)
    obtain n H fh where t: "t = (n, H, fh)"
      by (cases t)
    obtain sid db1 where i: "insert_song (traced st) (db self) n fh None None = (sid, db1)"
      by (cases "insert_song (traced st) (db self) n fh None None")
    let ?X = "set_song_fingerprinted (traced st) (insert_hashes (traced st) db1 sid H) sid"
    have X: "snd ?X = snd (db self) @ ingest_calls None None (sid, n, H, fh)"
      using i by (rule traced_ingest)
    obtain e self' where g: "get_fingerprinted_songs (traced st) (self\<lparr>db := ?X\<rparr>) = (e, self')"
      by (cases "get_fingerprinted_songs (traced st) (self\<lparr>db := ?X\<rparr>)")
    from get_fingerprinted_songs_keeps(1) [of "traced st" "self\<lparr>db := ?X\<rparr>"] g
    have d': "db self' = ?X"
      by simp
    have c: "consume (traced st) (r # rs) self =
        (case e of Some x \<Rightarrow> (Some x, self') | None \<Rightarrow> consume (traced st) rs self')"
      using i g by (simp add: Inr t Let_def split: option.splits)
    show ?thesis
    proof (cases e)
      case (Some x)
      have c': "consume (traced st) (r # rs) self = (Some x, self')"
        by (simp add: c Some)
      show ?thesis
        unfolding c' by (rule exI [of _ "[(sid, n, H, fh)]"]) (simp add: d' X Inr t)
    next
      case None
      from Cons.IH [of self'] obtain ingested where
        ing: "snd (db (snd (consume (traced st) rs self'))) =
           snd (db self') @ concat (map (ingest_calls None None) ingested) \<and>
          (\<forall>(sid, n, H, fh) \<in> set ingested. Inr (n, H, fh) \<in> set rs) \<and>
          (fst (consume (traced st) rs self') = None \<longrightarrow>
            (\<forall>n H fh. Inr (n, H, fh) \<in> set rs \<longrightarrow> (\<exists>sid. (sid, n, H, fh) \<in> set ingested)))"
        ..
      have c': "consume (traced st) (r # rs) self = consume (traced st) rs self'"
        by (simp add: c None)
      show ?thesis
        unfolding c' using ing
        apply (intro exI [of _ "(sid, n, H, fh) # ingested"])
        apply (auto simp add: d' X Inr t)
        apply blast
        done
    qed
  qed
qed

lemma fingerprint_directory_consume:
  "\<exists>out. fingerprint_directory env st co path extensions self =
     consume st
       (co (map (\<lambda>f. fingerprint_worker env (Packed f (limit self)) NoLimit None)
              (map fst (filter (\<lambda>(f, x). unique_hash env f \<notin> songhashes_set self)
                          (find_files env path extensions)))))
       (self\<lparr>stdout := out\<rparr>)"
  unfolding fingerprint_directory_unfold by (rule exI, rule refl)

text \<open>
  Claim C8. Run either path on a store that records its calls, with a pool that delivers
  the results of the workers in any order. The calls added are, for each song ingested,
  \<open>insert_song\<close>, then \<open>insert_hashes\<close> with the song id and the whole set of hashes
  that the worker returned for the file, then \<open>set_song_fingerprinted\<close> with that song
  id, and no other call: the flag is set right after the hashes of the song and never
  before. A run that ends without an exception has ingested every result of a worker.
\<close>

theorem hashes_before_flag:
  assumes "\<forall>xs. set (co xs) = set xs"
  shows
    "(\<exists>ingested. length ingested \<le> 1 \<and>
        snd (db (snd (fingerprint_file env (traced st) filepath song_name creative_id self))) =
          snd (db self) @
          concat (map (ingest_calls (soundfile_duration env filepath) creative_id) ingested) \<and>
        (\<forall>(sid, n, H, fh) \<in> set ingested.
           fingerprint_worker env (Plain filepath) (limit self)
             (Some (name_or song_name (path_to_songname env filepath))) = Inr (n, H, fh)) \<and>
        (fst (fingerprint_file env (traced st) filepath song_name creative_id self) = None
           \<longrightarrow> ingested \<noteq> [])) \<and>
     (\<exists>ingested.
        snd (db (snd (fingerprint_directory env (traced st) co path extensions self))) =
          snd (db self) @ concat (map (ingest_calls None None) ingested) \<and>
        (\<forall>(sid, n, H, fh) \<in> set ingested.
           \<exists>f x. (f, x) \<in> set (find_files env path extensions) \<and>
             unique_hash env f \<notin> songhashes_set self \<and>
             fingerprint_worker env (Packed f (limit self)) NoLimit None = Inr (n, H, fh)) \<and>
        (fst (fingerprint_directory env (traced st) co path extensions self) = None \<longrightarrow>
           (\<forall>f x n H fh. (f, x) \<in> set (find_files env path extensions) \<and>
              unique_hash env f \<notin> songhashes_set self \<and>
              fingerprint_worker env (Packed f (limit self)) NoLimit None = Inr (n, H, fh) \<longrightarrow>
              (\<exists>sid. (sid, n, H, fh) \<in> set ingested))))"
proof (rule conjI)
  let ?w = "fingerprint_worker env (Plain filepath) (limit self)
      (Some (name_or song_name (path_to_songname env filepath)))"
  let ?P = "\<lambda>ingested. length ingested \<le> 1 \<and>
        snd (db (snd (fingerprint_file env (traced st) filepath song_name creative_id self))) =
          snd (db self) @
          concat (map (ingest_calls (soundfile_duration env filepath) creative_id) ingested) \<and>
        (\<forall>(sid, n, H, fh) \<in> set ingested. ?w = Inr (n, H, fh)) \<and>
        (fst (fingerprint_file env (traced st) filepath song_name creative_id self) = None
           \<longrightarrow> ingested \<noteq> [])"
  show "\<exists>ingested. ?P ingested"
  proof (cases "soundfile_duration env filepath")
    case None
    then have "?P []"
      by (simp add: fingerprint_file_def Let_def)
    then show ?thesis ..
  next
    case (Some duration)
    show ?thesis
    proof (cases "unique_hash env filepath \<in> songhashes_set self")
      case True
      with Some have "?P []"
        by (simp add: fingerprint_file_def Let_def)
      then show ?thesis ..
    next
      case False
      show ?thesis
      proof (cases ?w)
        case (Inl e)
        with Some False have "?P []"
          by (simp add: fingerprint_file_def Let_def)
        then show ?thesis ..
      next
        case (Inr t)
        obtain n H fh where t: "t = (n, H, fh)"
          by (cases t)
        obtain sid db1 where
          i: "insert_song (traced st) (db self) n fh (Some duration) creative_id = (sid, db1)"
          by (cases "insert_song (traced st) (db self) n fh (Some duration) creative_id")
        let ?X = "set_song_fingerprinted (traced st) (insert_hashes (traced st) db1 sid H) sid"
        have X: "snd ?X = snd (db self) @ ingest_calls (Some duration) creative_id (sid, n, H, fh)"
          using i by (rule traced_ingest)
        have f: "fingerprint_file env (traced st) filepath song_name creative_id self =
            get_fingerprinted_songs (traced st) (self\<lparr>db := ?X\<rparr>)"
          using Some False Inr i by (simp add: fingerprint_file_def Let_def t)
        have "?P [(sid, n, H, fh)]"
          by (simp add: f get_fingerprinted_songs_keeps X Some Inr t)
        then show ?thesis ..
      qed
    qed
  qed
next
  let ?todo = "map fst (filter (\<lambda>(f, x). unique_hash env f \<notin> songhashes_set self)
      (find_files env path extensions))"
  let ?rs = "co (map (\<lambda>f. fingerprint_worker env (Packed f (limit self)) NoLimit None) ?todo)"
  obtain out where fd: "fingerprint_directory env (traced st) co path extensions self =
      consume (traced st) ?rs (self\<lparr>stdout := out\<rparr>)"
    using fingerprint_directory_consume [of env "traced st" co path extensions self] ..
  have rs: "Inr (n, H, fh) \<in> set ?rs \<longleftrightarrow>
      (\<exists>f x. (f, x) \<in> set (find_files env path extensions) \<and>
         unique_hash env f \<notin> songhashes_set self \<and>
         fingerprint_worker env (Packed f (limit self)) NoLimit None = Inr (n, H, fh))" for n H fh
    using assms by (force simp add: image_iff)
  from consume_traced [of st ?rs "self\<lparr>stdout := out\<rparr>"] obtain ingested where
    ing: "snd (db (snd (consume (traced st) ?rs (self\<lparr>stdout := out\<rparr>)))) =
       snd (db (self\<lparr>stdout := out\<rparr>)) @ concat (map (ingest_calls None None) ingested) \<and>
      (\<forall>(sid, n, H, fh) \<in> set ingested. Inr (n, H, fh) \<in> set ?rs) \<and>
      (fst (consume (traced st) ?rs (self\<lparr>stdout := out\<rparr>)) = None \<longrightarrow>
        (\<forall>n H fh. Inr (n, H, fh) \<in> set ?rs \<longrightarrow> (\<exists>sid. (sid, n, H, fh) \<in> set ingested)))"
    ..
  show "\<exists>ingested.
        snd (db (snd (fingerprint_directory env (traced st) co path extensions self))) =
          snd (db self) @ concat (map (ingest_calls None None) ingested) \<and>
        (\<forall>(sid, n, H, fh) \<in> set ingested.
           \<exists>f x. (f, x) \<in> set (find_files env path extensions) \<and>
             unique_hash env f \<notin> songhashes_set self \<and>
             fingerprint_worker env (Packed f (limit self)) NoLimit None = Inr (n, H, fh)) \<and>
        (fst (fingerprint_directory env (traced st) co path extensions self) = None \<longrightarrow>
           (\<forall>f x n H fh. (f, x) \<in> set (find_files env path extensions) \<and>
              unique_hash env f \<notin> songhashes_set self \<and>
              fingerprint_worker env (Packed f (limit self)) NoLimit None = Inr (n, H, fh) \<longrightarrow>
              (\<exists>sid. (sid, n, H, fh) \<in> set ingested)))"
    unfolding fd
    using ing unfolding rs
    apply (intro exI [of _ ingested])
    apply simp
    apply blast
    done
qed

theorem hashes_before_flag_witness:
  "let env = \<lparr>find_files = (\<lambda>p x. [(''a.wav'', ''wav''), (''b.wav'', ''wav'')]),
       unique_hash = (\<lambda>f. if f = ''a.wav'' then ''ha'' else ''hb''),
       path_to_songname = (\<lambda>f. f), basename_noext = (\<lambda>f. f),
       read = (\<lambda>f l. Some ([[1, 2, 3 :: nat]], 44100, ''hb'')),
       fingerprint = (\<lambda>channel Fs. map (\<lambda>x. x + Fs) channel),
       soundfile_duration = (\<lambda>f. Some ''1.0'')\<rparr>;
       st = \<lparr>get_songs = (\<lambda>d. d),
       insert_song = (\<lambda>d n fh du c. (int (length d), d @ [[(''file_sha1'', fh)]])),
       insert_hashes = (\<lambda>d sid H. d),
       set_song_fingerprinted = (\<lambda>d sid. d)\<rparr>;
       self = \<lparr>db = ([[(''file_sha1'', ''ha'')]], []), limit = NoLimit,
       songs = [[(''file_sha1'', ''ha'')]], songhashes_set = {''ha''}, stdout = []\<rparr>
   in (\<forall>xs :: (error + string \<times> nat set \<times> string) list. set (rev xs) = set xs) \<and>
      (\<exists>ingested. length ingested \<le> 1 \<and>
         snd (db (snd (fingerprint_file env (traced st) ''b.wav'' None None self))) =
           snd (db self) @
           concat (map (ingest_calls (soundfile_duration env ''b.wav'') None) ingested) \<and>
         (\<forall>(sid, n, H, fh) \<in> set ingested.
            fingerprint_worker env (Plain ''b.wav'') (limit self)
              (Some (name_or None (path_to_songname env ''b.wav''))) = Inr (n, H, fh)) \<and>
         (fst (fingerprint_file env (traced st) ''b.wav'' None None self) = None
            \<longrightarrow> ingested \<noteq> [])) \<and>
      fingerprint_file env (traced st) ''b.wav'' None None self =
        (None,
         self\<lparr>db := ([[(''file_sha1'', ''ha'')], [(''file_sha1'', ''hb'')]],
                   [InsertSong ''b.wav'' ''hb'' (Some ''1.0'') None,
                    InsertHashes 1 {44101, 44102, 44103},
                    SetSongFingerprinted 1]),
               songs := [[(''file_sha1'', ''ha'')], [(''file_sha1'', ''hb'')]],
               songhashes_set := {''ha'', ''hb''}\<rparr>)"
proof -
  let ?env = "\<lparr>find_files = (\<lambda>p x. [(''a.wav'', ''wav''), (''b.wav'', ''wav'')]),
       unique_hash = (\<lambda>f. if f = ''a.wav'' then ''ha'' else ''hb''),
       path_to_songname = (\<lambda>f. f), basename_noext = (\<lambda>f. f),
       read = (\<lambda>f l. Some ([[1, 2, 3 :: nat]], 44100, ''hb'')),
       fingerprint = (\<lambda>channel Fs. map (\<lambda>x. x + Fs) channel),
       soundfile_duration = (\<lambda>f. Some ''1.0'')\<rparr>"
  let ?st = "\<lparr>get_songs = (\<lambda>d. d),
       insert_song = (\<lambda>d n fh du c. (int (length d), d @ [[(''file_sha1'', fh)]])),
       insert_hashes = (\<lambda>d sid H. d),
       set_song_fingerprinted = (\<lambda>d sid. d)\<rparr>"
  let ?self = "\<lparr>db = ([[(''file_sha1'', ''ha'')]], []), limit = NoLimit,
       songs = [[(''file_sha1'', ''ha'')]], songhashes_set = {''ha''}, stdout = []\<rparr>"
  have h: "\<forall>xs :: (error + string \<times> nat set \<times> string) list. set (rev xs) = set xs"
    by simp
  note t = hashes_before_flag [OF h, where env = ?env and st = ?st and filepath = "''b.wav''"
      and song_name = None and creative_id = None and self = ?self, THEN conjunct1]
  have r: "fingerprint_file ?env (traced ?st) ''b.wav'' None None ?self =
        (None,
         ?self\<lparr>db := ([[(''file_sha1'', ''ha'')], [(''file_sha1'', ''hb'')]],
                   [InsertSong ''b.wav'' ''hb'' (Some ''1.0'') None,
                    InsertHashes 1 {44101, 44102, 44103},
                    SetSongFingerprinted 1]),
               songs := [[(''file_sha1'', ''ha'')], [(''file_sha1'', ''hb'')]],
               songhashes_set := {''ha'', ''hb''}\<rparr>)"
    by (simp add: fingerprint_file_def fingerprint_worker_def unpack_args_def name_or_def
        get_fingerprinted_songs_def traced_def FIELD_FILE_SHA1_def Let_def insert_commute)
  from h t r show ?thesis
    unfolding Let_def by (intro conjI)
qed

end
